theory Spec2Isabelle
  imports Complex_Main "HOL-Library.Sublist"
begin

section \<open>Values, files and diagnostics\<close>

text \<open>
  The client configuration resolver of \<^verbatim>\<open>pkg/client/config.go\<close>. The JSON
  configuration is a Go \<^verbatim>\<open>map[string]interface{}\<close>: a partial map from keys to
  loosely typed values. A JSON number decodes to a \<^verbatim>\<open>float64\<close>; no function
  of the file looks inside one.
\<close>

datatype jval =
    JNull
  | JBool bool
  | JNumber real
  | JString string
  | JArray "jval list"
  | JObject "(string \<times> jval) list"

type_synonym jsonObj = "string \<Rightarrow> jval option"

text \<open>Go's \<^verbatim>\<open>error\<close> values; \<^verbatim>\<open>nil\<close> is \<open>None\<close> of \<open>error option\<close>.\<close>

datatype error = ErrNotExist | ErrNoAuth | Err string

text \<open>What \<^verbatim>\<open>os.Stat\<close> can find at a path.\<close>

datatype node = File string | Dir

text \<open>
  One constructor for each logging call of the file, holding the arguments of its
  format string.
\<close>

datatype diag =
    ReadFileFailed error
  | MissingServer string
  | ExplicitServerNoAuth
  | NoKeyInConfig string string
  | NoSecretRing
  | KeyIdNotInRing string error
  | SerializeFailed error
  | NoSelfPubKeyDir string
  | SelfPubKeyDirNotDir string
  | WritePubKeyFailed string error
  | TrustedCertNotString jval

text \<open>
  The two ways a call ends the process instead of returning: \<^verbatim>\<open>log.Fatal\<close>
  (which prints the diagnostic and exits) and a run-time panic of a failed type assertion
  \<^verbatim>\<open>value.(string)\<close>, which holds the offending value.
\<close>

datatype abort = Fatal diag | PanicNotString jval

section \<open>String functions of the Go library\<close>

definition HasPrefix :: "string \<Rightarrow> string \<Rightarrow> bool" where
  "HasPrefix s p = prefix p s"

definition HasSuffix :: "string \<Rightarrow> string \<Rightarrow> bool" where
  "HasSuffix s p = suffix p s"

text \<open>
  \<^verbatim>\<open>strings.ToLower\<close> on the bytes of a string: the letters A to Z are mapped to
  a to z. This is what Go computes on ASCII strings (certificate fingerprints are
  hexadecimal); bytes from 128 on are left as they are here.
\<close>

definition toLowerByte :: "char \<Rightarrow> char" where
  "toLowerByte c =
     (let n = (of_char c :: nat) in if 65 \<le> n \<and> n \<le> 90 then char_of (n + 32) else c)"

definition ToLower :: "string \<Rightarrow> string" where
  "ToLower s = map toLowerByte s"

section \<open>Server normalisation\<close>

text \<open>
  \<^verbatim>\<open>cleanServer\<close>: \<^verbatim>\<open>server[0 : len(server)-1]\<close> is \<open>butlast\<close>, taken only
  when the string ends in a slash (so it is never empty there).
\<close>

definition cleanServer :: "string \<Rightarrow> string" where
  "cleanServer server =
     (let server1 = (if HasSuffix server ''/'' then butlast server else server) in
      if \<not> HasPrefix server1 ''http'' \<and> \<not> HasPrefix server1 ''https''
      then ''https://'' @ server1
      else server1)"

section \<open>The packages outside this file\<close>

text \<open>
  The functions and constants of \<^verbatim>\<open>osutil\<close>, \<^verbatim>\<open>path/filepath\<close>,
  \<^verbatim>\<open>jsonconfig\<close>, \<^verbatim>\<open>auth\<close>, \<^verbatim>\<open>jsonsign\<close> and \<^verbatim>\<open>blobref\<close> that
  the file calls are parameters of the model: \<open>'am\<close> is \<^verbatim>\<open>auth.AuthMode\<close>,
  \<open>'ent\<close> an OpenPGP entity, \<open>'br\<close> a \<^verbatim>\<open>*blobref.BlobRef\<close>.
  \<^verbatim>\<open>jsonconfig.ReadFile\<close> is given the disk and a path; \<^verbatim>\<open>auth.FromEnv\<close> the
  environment; \<open>findEntity\<close> is the lookup of a key id in the bytes of a key ring.
\<close>

record ('am, 'ent, 'br) externals =
  CamliConfigDir :: string
  Join :: "string \<Rightarrow> string \<Rightarrow> string"
  jsonconfig_ReadFile :: "(string \<Rightarrow> node option) \<Rightarrow> string \<Rightarrow> error + jsonObj"
  auth_FromEnv :: "(string \<Rightarrow> string option) \<Rightarrow> 'am \<times> error option"
  auth_FromConfig :: "string \<Rightarrow> 'am \<times> error option"
  IdentitySecretRing :: string
  DefaultSecRingPath :: string
  findEntity :: "string \<Rightarrow> string \<Rightarrow> error + 'ent"
  ArmoredPublicKey :: "'ent \<Rightarrow> error + string"
  SHA1FromString :: "string \<Rightarrow> 'br"
  BlobRef_String :: "'br \<Rightarrow> string"

section \<open>Process state and clients\<close>

text \<open>
  The package-level variables of the file (\<open>flagServer\<close> is a pointer, \<open>None\<close>
  when \<^verbatim>\<open>AddFlags\<close> was never called; each \<^verbatim>\<open>sync.Once\<close> is the flag saying
  that it has run), together with what the process sees of its surroundings: the
  environment variables, the disk, the paths at which \<^verbatim>\<open>ioutil.WriteFile\<close> fails,
  and two traces, of the paths handed to \<^verbatim>\<open>ioutil.WriteFile\<close> and of the
  diagnostics printed by \<^verbatim>\<open>log.Printf\<close>.
\<close>

record 'br proc =
  flagServer :: "string option"
  configOnce :: bool
  config :: jsonObj
  parseConfigErr :: "error option"
  signerPublicKeyRefOnce :: bool
  signerPublicKeyRef :: "'br option"
  initTrustedCertsOnce :: bool
  environ :: "string \<Rightarrow> string option"
  fs :: "string \<Rightarrow> node option"
  unwritable :: "string \<Rightarrow> bool"
  writes :: "string list"
  logs :: "diag list"

text \<open>The fields of \<^verbatim>\<open>Client\<close> that this file reads or writes.\<close>

record 'am Client =
  server :: string
  authMode :: 'am
  trustedCerts :: "string list"

definition logPrintf :: "diag \<Rightarrow> 'br proc \<Rightarrow> 'br proc" where
  "logPrintf d st = st\<lparr>logs := logs st @ [d]\<rparr>"

definition Getenv :: "'br proc \<Rightarrow> string \<Rightarrow> string" where
  "Getenv st k = (case environ st k of Some v \<Rightarrow> v | None \<Rightarrow> [])"

definition fileExists :: "'br proc \<Rightarrow> string \<Rightarrow> bool" where
  "fileExists st name = (fs st name \<noteq> None)"

text \<open>
  \<^verbatim>\<open>ioutil.WriteFile\<close>: it fails on a directory and on a path that cannot be
  written; otherwise the file holds the data afterwards.
\<close>

definition WriteFile :: "'br proc \<Rightarrow> string \<Rightarrow> string \<Rightarrow> error option \<times> 'br proc" where
  "WriteFile st name content =
     (let st1 = st\<lparr>writes := writes st @ [name]\<rparr> in
      if unwritable st name then (Some (Err ''write''), st1)
      else if fs st name = Some Dir then (Some (Err ''is a directory''), st1)
      else (None, st1\<lparr>fs := (fs st)(name \<mapsto> File content)\<rparr>))"

text \<open>
  Type assertions on an \<^verbatim>\<open>interface{}\<close>. The two-value form \<^verbatim>\<open>v, ok := x.(T)\<close>
  gives the zero value and \<^verbatim>\<open>false\<close> on another type (and on the \<^verbatim>\<open>nil\<close> that a
  missing key yields); the one-value form \<^verbatim>\<open>x.(T)\<close> panics.
\<close>

definition assertString :: "jval option \<Rightarrow> string \<times> bool" where
  "assertString x = (case x of Some (JString s) \<Rightarrow> (s, True) | _ \<Rightarrow> ([], False))"

definition assertArray :: "jval option \<Rightarrow> jval list \<times> bool" where
  "assertArray x = (case x of Some (JArray vs) \<Rightarrow> (vs, True) | _ \<Rightarrow> ([], False))"

definition mustString :: "jval \<Rightarrow> abort + string" where
  "mustString x = (case x of JString s \<Rightarrow> Inr s | _ \<Rightarrow> Inl (PanicNotString x))"

definition isJString :: "jval \<Rightarrow> bool" where
  "isJString v = (case v of JString _ \<Rightarrow> True | _ \<Rightarrow> False)"

section \<open>Loading the configuration\<close>

definition ExplicitServer :: "'br proc \<Rightarrow> string" where
  "ExplicitServer st = (case flagServer st of Some f \<Rightarrow> f | None \<Rightarrow> [])"

text \<open>The test \<^verbatim>\<open>flagServer != nil && *flagServer != ""\<close>.\<close>

definition explicitServerSet :: "'br proc \<Rightarrow> bool" where
  "explicitServerSet st = (case flagServer st of Some f \<Rightarrow> f \<noteq> [] | None \<Rightarrow> False)"

definition ConfigFilePath :: "('am, 'ent, 'br) externals \<Rightarrow> string" where
  "ConfigFilePath X = Join X (CamliConfigDir X) ''config''"

definition parseConfig :: "('am, 'ent, 'br) externals \<Rightarrow> 'br proc \<Rightarrow> abort + 'br proc" where
  "parseConfig X st =
     (let configPath = ConfigFilePath X in
      if fs st configPath = None then Inr (st\<lparr>parseConfigErr := Some ErrNotExist\<rparr>)
      else
        (case jsonconfig_ReadFile X (fs st) configPath of
           Inl err \<Rightarrow> Inl (Fatal (ReadFileFailed err))
         | Inr conf \<Rightarrow> Inr (st\<lparr>config := conf\<rparr>)))"

text \<open>\<^verbatim>\<open>configOnce.Do(parseConfig)\<close>.\<close>

definition configOnce_Do :: "('am, 'ent, 'br) externals \<Rightarrow> 'br proc \<Rightarrow> abort + 'br proc" where
  "configOnce_Do X st =
     (if configOnce st then Inr st
      else
        (case parseConfig X st of
           Inl a \<Rightarrow> Inl a
         | Inr st1 \<Rightarrow> Inr (st1\<lparr>configOnce := True\<rparr>)))"

section \<open>Server and authentication\<close>

text \<open>
  \<^verbatim>\<open>serverOrDie\<close>. The condition \<^verbatim>\<open>!ok || server == ""\<close> is written as the two
  tests it makes, in their order.
\<close>

definition serverOrDie ::
  "('am, 'ent, 'br) externals \<Rightarrow> 'br proc \<Rightarrow> abort + (string \<times> 'br proc)" where
  "serverOrDie X st =
     (if explicitServerSet st then Inr (cleanServer (ExplicitServer st), st)
      else
        (case configOnce_Do X st of
           Inl a \<Rightarrow> Inl a
         | Inr st1 \<Rightarrow>
             (let ok = (config st1 ''server'' \<noteq> None) in
              case (case config st1 ''server'' of
                      Some v \<Rightarrow> mustString v
                    | None \<Rightarrow> Inr []) of
                Inl a \<Rightarrow> Inl a
              | Inr server0 \<Rightarrow>
                  (let server1 = cleanServer server0 in
                   if \<not> ok then Inl (Fatal (MissingServer (ConfigFilePath X)))
                   else if server1 = [] then Inl (Fatal (MissingServer (ConfigFilePath X)))
                   else Inr (server1, st1)))))"

definition useTLS :: "'am Client \<Rightarrow> bool" where
  "useTLS c = HasPrefix (server c) ''https://''"

definition SetupAuthFromConfig ::
  "('am, 'ent, 'br) externals \<Rightarrow> 'am Client \<Rightarrow> jsonObj \<Rightarrow> 'br proc
     \<Rightarrow> error option \<times> 'am Client" where
  "SetupAuthFromConfig X c conf st =
     (case conf ''auth'' of
        Some v \<Rightarrow>
          (let (authString, ok) = assertString (Some v);
               (am, err) = auth_FromConfig X authString
           in (err, c\<lparr>authMode := am\<rparr>))
      | None \<Rightarrow>
          (let (am, err) = auth_FromEnv X (environ st)
           in (err, c\<lparr>authMode := am\<rparr>)))"

definition SetupAuth ::
  "('am, 'ent, 'br) externals \<Rightarrow> 'am Client \<Rightarrow> 'br proc
     \<Rightarrow> abort + (error option \<times> 'am Client \<times> 'br proc)" where
  "SetupAuth X c st =
     (if explicitServerSet st then
        (let (am, err) = auth_FromEnv X (environ st) in
         Inr (err, c\<lparr>authMode := am\<rparr>,
              if err = Some ErrNoAuth then logPrintf ExplicitServerNoAuth st else st))
      else
        (case configOnce_Do X st of
           Inl a \<Rightarrow> Inl a
         | Inr st1 \<Rightarrow>
             (let (err, c1) = SetupAuthFromConfig X c (config st1) st1
              in Inr (err, c1, st1))))"

section \<open>The secret ring and the signer's public key\<close>


text \<open>
  \<^verbatim>\<open>jsonsign.EntityFromSecring(keyId, keyRing)\<close> opens the key ring file and looks
  the key id up in what it reads; it fails when the file cannot be opened.
\<close>

definition EntityFromSecring ::
  "('am, 'ent, 'br) externals \<Rightarrow> 'br proc \<Rightarrow> string \<Rightarrow> string \<Rightarrow> error + 'ent" where
  "EntityFromSecring X st keyId keyRing =
     (case fs st keyRing of
        None \<Rightarrow> Inl ErrNotExist
      | Some Dir \<Rightarrow> Inl (Err ''is a directory'')
      | Some (File ring) \<Rightarrow> findEntity X keyId ring)"

text \<open>The name of the published blob file: \<^verbatim>\<open>filepath.Join(selfPubKeyDir, br.String()+".camli")\<close>.\<close>

definition pubFilePath :: "('am, 'ent, 'br) externals \<Rightarrow> string \<Rightarrow> 'br \<Rightarrow> string" where
  "pubFilePath X selfPubKeyDir br = Join X selfPubKeyDir (BlobRef_String X br @ ''.camli'')"

text \<open>
  The choice of the key ring in \<^verbatim>\<open>getSignerPublicKeyBlobref\<close>: the configured one,
  else the first of the two standard files that exists, else none (\<open>None\<close>, where the
  source logs and returns \<^verbatim>\<open>nil\<close>).
\<close>

definition signerKeyRing :: "('am, 'ent, 'br) externals \<Rightarrow> 'br proc \<Rightarrow> string option" where
  "signerKeyRing X st =
     (let (keyRing, hasKeyRing) = assertString (config st ''secretRing'') in
      if hasKeyRing then Some keyRing
      else if fileExists st (IdentitySecretRing X) then Some (IdentitySecretRing X)
      else if fileExists st (DefaultSecRingPath X) then Some (DefaultSecRingPath X)
      else None)"

text \<open>
  The last step of \<^verbatim>\<open>getSignerPublicKeyBlobref\<close>, from \<^verbatim>\<open>os.Stat(pubFile)\<close> on:
  the file is written only when \<^verbatim>\<open>os.Stat\<close> fails.
\<close>

definition publishKey ::
  "('am, 'ent, 'br) externals \<Rightarrow> 'br proc \<Rightarrow> string \<Rightarrow> string \<Rightarrow> 'br option \<times> 'br proc" where
  "publishKey X st selfPubKeyDir armored =
     (let br = SHA1FromString X armored;
          pubFile = pubFilePath X selfPubKeyDir br
      in if fs st pubFile = None then
           (case WriteFile st pubFile armored of
              (Some err, st1) \<Rightarrow> (None, logPrintf (WritePubKeyFailed pubFile err) st1)
            | (None, st1) \<Rightarrow> (Some br, st1))
         else (Some br, st))"

text \<open>\<^verbatim>\<open>getSignerPublicKeyBlobref\<close> after the configuration is loaded.\<close>

definition signerFromConfig ::
  "('am, 'ent, 'br) externals \<Rightarrow> 'br proc \<Rightarrow> 'br option \<times> 'br proc" where
  "signerFromConfig X st =
     (let (keyId, ok) = assertString (config st ''keyId'') in
      if \<not> ok then (None, logPrintf (NoKeyInConfig ''keyId'' (ConfigFilePath X)) st)
      else
        (case signerKeyRing X st of
           None \<Rightarrow> (None, logPrintf NoSecretRing st)
         | Some keyRing \<Rightarrow>
             (case EntityFromSecring X st keyId keyRing of
                Inl err \<Rightarrow> (None, logPrintf (KeyIdNotInRing keyId err) st)
              | Inr entity \<Rightarrow>
                  (case ArmoredPublicKey X entity of
                     Inl err \<Rightarrow> (None, logPrintf (SerializeFailed err) st)
                   | Inr armored \<Rightarrow>
                       (let (selfPubKeyDir, ok1) = assertString (config st ''selfPubKeyDir'') in
                        if \<not> ok1 then (None, logPrintf (NoSelfPubKeyDir (ConfigFilePath X)) st)
                        else if fs st selfPubKeyDir \<noteq> Some Dir
                        then (None, logPrintf (SelfPubKeyDirNotDir selfPubKeyDir) st)
                        else publishKey X st selfPubKeyDir armored)))))"

definition getSignerPublicKeyBlobref ::
  "('am, 'ent, 'br) externals \<Rightarrow> 'br proc \<Rightarrow> abort + ('br option \<times> 'br proc)" where
  "getSignerPublicKeyBlobref X st =
     (case configOnce_Do X st of
        Inl a \<Rightarrow> Inl a
      | Inr st1 \<Rightarrow> Inr (signerFromConfig X st1))"

text \<open>
  \<^verbatim>\<open>SignerPublicKeyBlobref\<close>: \<^verbatim>\<open>signerPublicKeyRefOnce.Do(initSignerPublicKeyBlobref)\<close>
  and the read of the variable.
\<close>

definition SignerPublicKeyBlobref ::
  "('am, 'ent, 'br) externals \<Rightarrow> 'br proc \<Rightarrow> abort + ('br option \<times> 'br proc)" where
  "SignerPublicKeyBlobref X st =
     (if signerPublicKeyRefOnce st then Inr (signerPublicKeyRef st, st)
      else
        (case getSignerPublicKeyBlobref X st of
           Inl a \<Rightarrow> Inl a
         | Inr (r, st1) \<Rightarrow>
             Inr (r, st1\<lparr>signerPublicKeyRef := r, signerPublicKeyRefOnce := True\<rparr>)))"

section \<open>Trusted certificates\<close>

text \<open>The loop of \<^verbatim>\<open>initTrustedCerts\<close> over the elements of the list.\<close>

fun appendTrustedCerts :: "jval list \<Rightarrow> 'am Client \<Rightarrow> 'br proc \<Rightarrow> 'am Client \<times> 'br proc" where
  "appendTrustedCerts [] c st = (c, st)"
| "appendTrustedCerts (v # vs) c st =
     (let (trustedCert, ok) = assertString (Some v) in
      if \<not> ok then (c, logPrintf (TrustedCertNotString v) st)
      else appendTrustedCerts vs (c\<lparr>trustedCerts := trustedCerts c @ [ToLower trustedCert]\<rparr>) st)"

definition initTrustedCerts ::
  "('am, 'ent, 'br) externals \<Rightarrow> 'am Client \<Rightarrow> 'br proc \<Rightarrow> abort + ('am Client \<times> 'br proc)" where
  "initTrustedCerts X c st =
     (let e = Getenv st ''CAMLI_TRUSTED_CERT'' in
      if e \<noteq> [] then Inr (c\<lparr>trustedCerts := [e]\<rparr>, st)
      else
        (let c1 = c\<lparr>trustedCerts := []\<rparr> in
         case configOnce_Do X st of
           Inl a \<Rightarrow> Inl a
         | Inr st1 \<Rightarrow>
             (let (val, ok) = assertArray (config st1 ''trustedCerts'') in
              if \<not> ok then Inr (c1, st1)
              else Inr (appendTrustedCerts val c1 st1))))"

text \<open>
  \<^verbatim>\<open>GetTrustedCerts\<close>: \<open>initTrustedCertsOnce\<close> is a variable of the package, not a
  field of the client.
\<close>

definition GetTrustedCerts ::
  "('am, 'ent, 'br) externals \<Rightarrow> 'am Client \<Rightarrow> 'br proc
     \<Rightarrow> abort + (string list \<times> 'am Client \<times> 'br proc)" where
  "GetTrustedCerts X c st =
     (if initTrustedCertsOnce st then Inr (trustedCerts c, c, st)
      else
        (case initTrustedCerts X c st of
           Inl a \<Rightarrow> Inl a
         | Inr (c1, st1) \<Rightarrow> Inr (trustedCerts c1, c1, st1\<lparr>initTrustedCertsOnce := True\<rparr>)))"

section \<open>A small instance to run the model on\<close>

text \<open>
  An instance of the outside packages: paths joined with a slash, a configuration reader
  that yields \<open>conf\<close> for any regular file at the path, authentication modes named by
  strings (\<^verbatim>\<open>CAMLI_AUTH\<close> in the environment), and toy key ring, armor and digest
  functions.
\<close>

definition demo :: "jsonObj \<Rightarrow> (string, string, string) externals" where
  "demo conf =
     \<lparr> CamliConfigDir = ''/home/u/.camlistore'',
       Join = (\<lambda>a b. a @ ''/'' @ b),
       jsonconfig_ReadFile =
         (\<lambda>disk name. case disk name of Some (File _) \<Rightarrow> Inr conf | _ \<Rightarrow> Inl (Err ''read'')),
       auth_FromEnv =
         (\<lambda>env. case env ''CAMLI_AUTH'' of Some a \<Rightarrow> (a, None) | None \<Rightarrow> ([], Some ErrNoAuth)),
       auth_FromConfig = (\<lambda>a. if a = [] then ([], Some (Err ''empty'')) else (a, None)),
       IdentitySecretRing = ''/home/u/.camlistore/identity-secring.gpg'',
       DefaultSecRingPath = ''/home/u/.gnupg/secring.gpg'',
       findEntity = (\<lambda>keyId ring. if keyId = ring then Inr keyId else Inl (Err ''no such key'')),
       ArmoredPublicKey = (\<lambda>ent. Inr (''PUBLIC KEY '' @ ent)),
       SHA1FromString = (\<lambda>a. ''sha1-'' @ rev a),
       BlobRef_String = (\<lambda>b. b) \<rparr>"

text \<open>
  A process that has just started: no flag, nothing loaded, an empty environment, and a
  disk holding only the configuration file.
\<close>

definition fresh :: "string proc" where
  "fresh =
     \<lparr> flagServer = None, configOnce = False, config = Map.empty, parseConfigErr = None,
       signerPublicKeyRefOnce = False, signerPublicKeyRef = None,
       initTrustedCertsOnce = False, environ = Map.empty,
       fs = [''/home/u/.camlistore/config'' \<mapsto> File ''{}''],
       unwritable = (\<lambda>_. False), writes = [], logs = [] \<rparr>"

text \<open>The zero value of a \<^verbatim>\<open>Client\<close>.\<close>

definition newClient :: "string Client" where
  "newClient = \<lparr> server = [], authMode = [], trustedCerts = [] \<rparr>"

section \<open>What a caller observes\<close>

text \<open>
  Of a call of \<^verbatim>\<open>SetupAuth\<close>: the error returned, the client, and the log.
\<close>

definition authResult ::
  "abort + (error option \<times> 'am Client \<times> 'br proc)
     \<Rightarrow> abort + (error option \<times> 'am Client \<times> diag list)" where
  "authResult out = map_sum id (\<lambda>(err, c, st). (err, c, logs st)) out"


text \<open>Two processes: one started with \<^verbatim>\<open>--server\<close>, one that has loaded a configuration.\<close>

definition explicitProc :: "string proc" where
  "explicitProc = fresh\<lparr>flagServer := Some ''friend.example.com''\<rparr>"


text \<open>
  A configuration with a key id, a key ring and a directory for the user's own blobs, and
  a process started on a disk that holds the ring and the directory.
\<close>

definition identConf :: jsonObj where
  "identConf = [''keyId'' \<mapsto> JString ''26F5ABDA'', ''secretRing'' \<mapsto> JString ''/ring'',
                ''selfPubKeyDir'' \<mapsto> JString ''/keys'']"

definition identProc :: "string proc" where
  "identProc =
     fresh\<lparr>fs := [''/home/u/.camlistore/config'' \<mapsto> File ''{}'',
                   ''/ring'' \<mapsto> File ''26F5ABDA'', ''/keys'' \<mapsto> Dir]\<rparr>"

text \<open>
  A configuration whose \<^verbatim>\<open>trustedCerts\<close> list has a number between two strings, and a
  process started with \<^verbatim>\<open>CAMLI_TRUSTED_CERT\<close> set.
\<close>

definition certsConf :: jsonObj where
  "certsConf =
     [''trustedCerts'' \<mapsto> JArray [JString ''ABC123'', JNumber 5, JString ''DEF456'']]"

definition envProc :: "string \<Rightarrow> string proc" where
  "envProc e = fresh\<lparr>environ := [''CAMLI_TRUSTED_CERT'' \<mapsto> e]\<rparr>"

section \<open>Properties of the normalisation\<close>

lemma HasSuffix_slash: "HasSuffix s ''/'' \<longleftrightarrow> s \<noteq> [] \<and> last s = CHR ''/''"
  by (cases s rule: rev_cases) (auto simp: HasSuffix_def)

lemma suffix_slash: "suffix ''/'' t \<longleftrightarrow> t \<noteq> [] \<and> last t = CHR ''/''"
  using HasSuffix_slash [of t] by (simp add: HasSuffix_def)

lemma https_imp_http: "HasPrefix s ''https'' \<Longrightarrow> HasPrefix s ''http''"
  unfolding HasPrefix_def by (auto simp: prefix_def)

lemma lacks_scheme:
  "(\<not> HasPrefix s ''http'' \<and> \<not> HasPrefix s ''https'') = (\<not> HasPrefix s ''http'')"
  using https_imp_http by blast

lemma cleanServer_alt:
  "cleanServer s =
     (let t = (if s \<noteq> [] \<and> last s = CHR ''/'' then butlast s else s)
      in if HasPrefix t ''http'' then t else ''https://'' @ t)"
  by (simp add: cleanServer_def HasSuffix_slash lacks_scheme Let_def)

lemma cleanServer_has_http: "HasPrefix (cleanServer s) ''http''"
  by (simp add: cleanServer_alt Let_def) (simp add: HasPrefix_def)


lemma cleanServer_fixed:
  assumes "HasPrefix r ''http''" and "\<not> HasSuffix r ''/''"
  shows "cleanServer r = r"
  using assms by (simp add: cleanServer_def)

lemma HasPrefix_http_butlast:
  assumes "HasPrefix r ''http''" and "HasSuffix r ''/''"
  shows "HasPrefix (butlast r) ''http''"
proof -
  from assms(1) obtain t where r: "r = ''http'' @ t"
    by (auto simp: HasPrefix_def prefix_def)
  with assms(2) have "t \<noteq> []"
    by (auto simp: HasSuffix_slash)
  with r show ?thesis
    by (simp add: HasPrefix_def butlast_append)
qed

lemma cleanServer_strips:
  assumes "HasPrefix r ''http''" and "HasSuffix r ''/''"
  shows "cleanServer r = butlast r"
  using assms HasPrefix_http_butlast [OF assms] by (simp add: cleanServer_def)

lemma butlast_neq: "r \<noteq> [] \<Longrightarrow> butlast r \<noteq> r"
  by (metis length_butlast diff_less length_greater_0_conv less_numeral_extra(1) nat_neq_iff)

text \<open>A second normalisation changes the value exactly when the first left a slash at the end.\<close>

lemma cleanServer_twice_iff:
  "cleanServer (cleanServer s) = cleanServer s \<longleftrightarrow> \<not> HasSuffix (cleanServer s) ''/''"
proof (cases "HasSuffix (cleanServer s) ''/''")
  case True
  then have "cleanServer s \<noteq> []" by (simp add: HasSuffix_slash)
  with True show ?thesis
    using cleanServer_strips [OF cleanServer_has_http True] butlast_neq by simp
next
  case False
  then show ?thesis
    using cleanServer_fixed [OF cleanServer_has_http False] by simp
qed

lemma cleanServer_ends_slash:
  "HasSuffix (cleanServer s) ''/'' \<longleftrightarrow> s = [] \<or> s = ''/'' \<or> suffix ''//'' s"
proof (cases s rule: rev_cases)
  case Nil
  then show ?thesis
    by (simp add: cleanServer_alt HasSuffix_slash HasPrefix_def)
next
  case (snoc t c)
  show ?thesis
  proof (cases "c = CHR ''/''")
    case True
    with snoc show ?thesis
      by (auto simp: cleanServer_alt HasSuffix_slash suffix_slash HasPrefix_def)
  next
    case False
    with snoc show ?thesis
      by (auto simp: cleanServer_alt HasSuffix_slash HasPrefix_def Let_def)
  qed
qed




text \<open>
  C3, as the spec has it: normalising twice is the same as normalising once, for every
  string. It fails: of two trailing slashes only one is removed each time.
\<close>

theorem cleanServer_not_idempotent:
  "cleanServer (cleanServer ''a//'') \<noteq> cleanServer ''a//''"
  by (simp add: cleanServer_def HasPrefix_def HasSuffix_def suffix_to_prefix)

text \<open>
  C3, amended: normalising twice is the same as normalising once exactly for the strings
  that are not empty, are not the single slash, and do not end in two slashes.
\<close>

theorem cleanServer_idempotent_iff:
  "cleanServer (cleanServer s) = cleanServer s
     \<longleftrightarrow> s \<noteq> [] \<and> s \<noteq> ''/'' \<and> \<not> suffix ''//'' s"
  by (simp add: cleanServer_twice_iff cleanServer_ends_slash)

theorem cleanServer_idempotent_iff_witness:
  "cleanServer (cleanServer ''example.com:1345/'') = cleanServer ''example.com:1345/''"
  using cleanServer_idempotent_iff [of "''example.com:1345/''"]
  by (simp add: suffix_to_prefix)

section \<open>Properties of server resolution\<close>



lemma fresh_load:
  "configOnce_Do (demo conf) fresh = Inr (fresh\<lparr>config := conf, configOnce := True\<rparr>)"
  by (simp add: configOnce_Do_def parseConfig_def ConfigFilePath_def demo_def fresh_def)



text \<open>
  C2 says that, with no override, an empty string under \<^verbatim>\<open>server\<close> ends the process
  with the diagnostic. The source tests \<^verbatim>\<open>server == ""\<close> only after
  \<^verbatim>\<open>cleanServer\<close>, which has turned the empty string into \<^verbatim>\<open>https://\<close>: the call
  returns that value.
\<close>

theorem serverOrDie_empty_server_returns:
  "map_sum id fst (serverOrDie (demo [''server'' \<mapsto> JString []]) fresh) = Inr ''https://''"
  by (simp add: serverOrDie_def fresh_load mustString_def cleanServer_def HasPrefix_def
      HasSuffix_def)
    (simp add: explicitServerSet_def fresh_def)

text \<open>
  C10: with no override, when the loaded configuration holds under \<^verbatim>\<open>server\<close> a
  value that is not a string, server resolution panics in the type assertion: it neither
  returns nor ends with the diagnostic of \<^verbatim>\<open>log.Fatalf\<close>.
\<close>

theorem serverOrDie_panics_on_non_string:
  assumes "\<not> explicitServerSet st" and "configOnce_Do X st = Inr st1"
    and "config st1 ''server'' = Some v" and "\<not> isJString v"
  shows "serverOrDie X st = Inl (PanicNotString v)"
  using assms by (cases v) (simp_all add: serverOrDie_def mustString_def isJString_def)

theorem serverOrDie_panics_on_non_string_witness:
  "serverOrDie (demo [''server'' \<mapsto> JNumber 8080]) fresh = Inl (PanicNotString (JNumber 8080))"
  using serverOrDie_panics_on_non_string
    [of fresh "demo [''server'' \<mapsto> JNumber 8080]" _ "JNumber 8080", OF _ fresh_load]
  by (simp add: explicitServerSet_def isJString_def fresh_def)

section \<open>The configuration is loaded once\<close>

lemma configOnce_Do_loaded: "configOnce st \<Longrightarrow> configOnce_Do X st = Inr st"
  by (simp add: configOnce_Do_def)

lemma configOnce_Do_sets: "configOnce_Do X st = Inr st1 \<Longrightarrow> configOnce st1"
  by (auto simp: configOnce_Do_def split: if_splits sum.splits)

lemma logPrintf_fields [simp]:
  "config (logPrintf d st) = config st" "configOnce (logPrintf d st) = configOnce st"
  "fs (logPrintf d st) = fs st" "writes (logPrintf d st) = writes st"
  "parseConfigErr (logPrintf d st) = parseConfigErr st"
  by (simp_all add: logPrintf_def)





lemma publishKey_config:
  "publishKey X st d a = (r, st1) \<Longrightarrow>
   config st1 = config st \<and> configOnce st1 = configOnce st \<and>
   parseConfigErr st1 = parseConfigErr st"
  by (auto simp: publishKey_def WriteFile_def Let_def split: if_splits)

lemma signerFromConfig_config:
  "signerFromConfig X st = (r, st1) \<Longrightarrow>
   config st1 = config st \<and> configOnce st1 = configOnce st \<and>
   parseConfigErr st1 = parseConfigErr st"
  unfolding signerFromConfig_def
  by (auto simp: Let_def dest: publishKey_config
      split: prod.splits if_splits option.splits sum.splits)














section \<open>Authentication with an explicit server\<close>

lemma SetupAuth_explicit:
  assumes "flagServer st = Some f" and "f \<noteq> []"
  shows "SetupAuth X c st =
     Inr (snd (auth_FromEnv X (environ st)), c\<lparr>authMode := fst (auth_FromEnv X (environ st))\<rparr>,
          if snd (auth_FromEnv X (environ st)) = Some ErrNoAuth
          then logPrintf ExplicitServerNoAuth st else st)"
  using assms by (simp add: SetupAuth_def explicitServerSet_def split: prod.splits)

text \<open>
  C5: with a non-empty \<^verbatim>\<open>--server\<close> flag, what \<^verbatim>\<open>SetupAuth\<close> returns, the client it
  leaves and what it logs are the same for any two configurations (so also for two that
  differ in \<^verbatim>\<open>auth\<close> only), loaded or not, and any two disks; the error and the auth
  mode are those of \<^verbatim>\<open>auth.FromEnv\<close>; the configuration is neither loaded nor changed;
  and when \<^verbatim>\<open>auth.FromEnv\<close> gives \<^verbatim>\<open>ErrNoAuth\<close>, that error is returned and the
  warning is logged (and otherwise nothing is).
\<close>

theorem explicit_server_auth_ignores_config:
  assumes "flagServer st = Some f" and "f \<noteq> []"
  shows "authResult (SetupAuth X c (st\<lparr>config := conf1, configOnce := b1, fs := disk1\<rparr>))
       = authResult (SetupAuth X c (st\<lparr>config := conf2, configOnce := b2, fs := disk2\<rparr>))
    \<and> (\<exists>st1. SetupAuth X c st =
          Inr (snd (auth_FromEnv X (environ st)),
               c\<lparr>authMode := fst (auth_FromEnv X (environ st))\<rparr>, st1)
          \<and> config st1 = config st \<and> configOnce st1 = configOnce st
          \<and> (if snd (auth_FromEnv X (environ st)) = Some ErrNoAuth
              then logs st1 = logs st @ [ExplicitServerNoAuth] else logs st1 = logs st))"
  using assms
  by (simp add: SetupAuth_explicit [where f = f] authResult_def logPrintf_def)

theorem explicit_server_auth_ignores_config_witness:
  "authResult (SetupAuth (demo Map.empty) newClient
       (explicitProc\<lparr>config := [''auth'' \<mapsto> JString ''userpass:me:secret''], configOnce := True,
          fs := Map.empty\<rparr>))
     = authResult (SetupAuth (demo Map.empty) newClient
       (explicitProc\<lparr>config := Map.empty, configOnce := False, fs := Map.empty\<rparr>))
   \<and> authResult (SetupAuth (demo Map.empty) newClient explicitProc)
     = Inr (Some ErrNoAuth, newClient, [ExplicitServerNoAuth])"
proof -
  have f: "flagServer explicitProc = Some ''friend.example.com''"
    by (simp add: explicitProc_def)
  have e: "auth_FromEnv (demo Map.empty) (environ explicitProc) = ([], Some ErrNoAuth)"
    by (simp add: explicitProc_def demo_def fresh_def)
  have l: "logs explicitProc = []" "authMode newClient = []"
    by (simp_all add: explicitProc_def fresh_def newClient_def)
  from explicit_server_auth_ignores_config [OF f, where X = "demo Map.empty" and c = newClient
      and ?conf1.0 = "[''auth'' \<mapsto> JString ''userpass:me:secret'']" and ?b1.0 = True
      and ?disk1.0 = Map.empty and ?conf2.0 = Map.empty and ?b2.0 = False and ?disk2.0 = Map.empty]
  show ?thesis
    using e l by (auto simp: authResult_def)
qed

section \<open>The public-key blob is published once\<close>

lemma fileExists_grows:
  "fs st p = None \<Longrightarrow> fileExists st q \<Longrightarrow> fileExists (st\<lparr>writes := w, fs := (fs st)(p \<mapsto> n)\<rparr>) q"
  by (simp add: fileExists_def)

text \<open>After a successful publication the file is there, and at most one write was made, of a file that was absent.\<close>

lemma publishKey_Some:
  assumes "publishKey X st d a = (Some br, st1)"
  shows "br = SHA1FromString X a"
    and "fs st1 (pubFilePath X d br) \<noteq> None"
    and "st1 = st \<or> (fs st (pubFilePath X d br) = None \<and>
           st1 = st\<lparr>writes := writes st @ [pubFilePath X d br],
                     fs := (fs st)(pubFilePath X d br \<mapsto> File a)\<rparr>)"
  using assms
  by (auto simp: publishKey_def WriteFile_def Let_def logPrintf_def split: if_splits)

lemma publishKey_again:
  "fs st (pubFilePath X d (SHA1FromString X a)) \<noteq> None \<Longrightarrow>
   publishKey X st d a = (Some (SHA1FromString X a), st)"
  by (auto simp: publishKey_def Let_def)

lemma signerFromConfig_Some:
  assumes "signerFromConfig X st = (Some br, st1)"
  obtains keyId keyRing ring entity armored d where
    "config st ''keyId'' = Some (JString keyId)"
    "signerKeyRing X st = Some keyRing"
    "fs st keyRing = Some (File ring)"
    "findEntity X keyId ring = Inr entity"
    "ArmoredPublicKey X entity = Inr armored"
    "config st ''selfPubKeyDir'' = Some (JString d)"
    "fs st d = Some Dir"
    "publishKey X st d armored = (Some br, st1)"
  using assms
  unfolding signerFromConfig_def EntityFromSecring_def assertString_def
  by (auto simp: Let_def logPrintf_def split: option.splits jval.splits sum.splits node.splits if_splits)


lemma signerKeyRing_after_write:
  assumes noalias: "p \<noteq> IdentitySecretRing X"
    and absent: "fs st p = None"
    and ring: "signerKeyRing X st = Some keyRing"
  shows "signerKeyRing X (st\<lparr>writes := w, fs := (fs st)(p \<mapsto> n)\<rparr>) = Some keyRing"
  using assms
  by (auto simp: signerKeyRing_def fileExists_def Let_def split: prod.splits if_splits)

lemma signerFromConfig_twice:
  assumes noalias: "\<And>d n. Join X d (n @ ''.camli'') \<noteq> IdentitySecretRing X"
    and first: "signerFromConfig X st = (Some br, st1)"
  shows "signerFromConfig X st1 = (Some br, st1)"
proof -
  from first obtain keyId keyRing ring entity armored d where
    k: "config st ''keyId'' = Some (JString keyId)"
    and r: "signerKeyRing X st = Some keyRing"
    and f: "fs st keyRing = Some (File ring)"
    and e: "findEntity X keyId ring = Inr entity"
    and a: "ArmoredPublicKey X entity = Inr armored"
    and c: "config st ''selfPubKeyDir'' = Some (JString d)"
    and dir: "fs st d = Some Dir"
    and pub: "publishKey X st d armored = (Some br, st1)"
    by (rule signerFromConfig_Some)
  let ?p = "pubFilePath X d br"
  from publishKey_Some [OF pub]
  have br: "br = SHA1FromString X armored"
    and st1: "st1 = st \<or> (fs st ?p = None \<and>
       st1 = st\<lparr>writes := writes st @ [?p], fs := (fs st)(?p \<mapsto> File armored)\<rparr>)"
    by blast+
  from st1 show ?thesis
  proof
    assume "st1 = st"
    with first show ?thesis by simp
  next
    assume w: "fs st ?p = None \<and>
       st1 = st\<lparr>writes := writes st @ [?p], fs := (fs st)(?p \<mapsto> File armored)\<rparr>"
    then have absent: "fs st ?p = None"
      and eq: "st1 = st\<lparr>writes := writes st @ [?p], fs := (fs st)(?p \<mapsto> File armored)\<rparr>"
      by blast+
    have "?p \<noteq> IdentitySecretRing X"
      unfolding pubFilePath_def by (rule noalias)
    from signerKeyRing_after_write [OF this absent r] eq
    have r1: "signerKeyRing X st1 = Some keyRing"
      by simp
    from absent f have "keyRing \<noteq> ?p" by auto
    with eq f have f1: "fs st1 keyRing = Some (File ring)" by simp
    from absent dir have "d \<noteq> ?p" by auto
    with eq dir have d1: "fs st1 d = Some Dir" by simp
    from eq have conf: "config st1 = config st" by simp
    from eq br have "fs st1 (pubFilePath X d (SHA1FromString X armored)) \<noteq> None" by simp
    then have p1: "publishKey X st1 d armored = (Some br, st1)"
      unfolding br by (rule publishKey_again)
    show ?thesis
      by (simp add: signerFromConfig_def assertString_def EntityFromSecring_def conf k r1 f1 e a c d1 p1)
  qed
qed

lemma signerFromConfig_writes:
  "signerFromConfig X st = (r, st1) \<Longrightarrow>
   writes st1 = writes st \<or> (\<exists>p. writes st1 = writes st @ [p] \<and> fs st p = None)"
  unfolding signerFromConfig_def publishKey_def WriteFile_def
  by (auto simp: Let_def logPrintf_def split: prod.splits option.splits sum.splits if_splits)

lemma getSigner_twice:
  assumes noalias: "\<And>d n. Join X d (n @ ''.camli'') \<noteq> IdentitySecretRing X"
    and first: "getSignerPublicKeyBlobref X st = Inr (Some br, st1)"
  shows "getSignerPublicKeyBlobref X st1 = Inr (Some br, st1)"
proof -
  from first obtain st0 where l: "configOnce_Do X st = Inr st0"
    and s: "signerFromConfig X st0 = (Some br, st1)"
    by (auto simp: getSignerPublicKeyBlobref_def split: sum.splits)
  from l have "configOnce st0" by (rule configOnce_Do_sets)
  with signerFromConfig_config [OF s] have "configOnce st1" by simp
  then have "configOnce_Do X st1 = Inr st1" by (rule configOnce_Do_loaded)
  with signerFromConfig_twice [OF noalias s] show ?thesis
    by (simp add: getSignerPublicKeyBlobref_def)
qed

lemma configOnce_Do_keeps_disk:
  "configOnce_Do X st = Inr st0 \<Longrightarrow> fs st0 = fs st \<and> writes st0 = writes st"
  by (auto simp: configOnce_Do_def parseConfig_def Let_def split: if_splits sum.splits)

lemma getSigner_writes:
  assumes "getSignerPublicKeyBlobref X st = Inr (r, st1)"
  shows "writes st1 = writes st \<or> (\<exists>p. writes st1 = writes st @ [p] \<and> fs st p = None)"
proof -
  from assms obtain st0 where l: "configOnce_Do X st = Inr st0"
    and s: "signerFromConfig X st0 = (r, st1)"
    by (auto simp: getSignerPublicKeyBlobref_def split: sum.splits)
  from signerFromConfig_writes [OF s] configOnce_Do_keeps_disk [OF l]
  show ?thesis by simp
qed

lemma Signer_once:
  "SignerPublicKeyBlobref X st = Inr (r, st1) \<Longrightarrow> SignerPublicKeyBlobref X st1 = Inr (r, st1)"
  by (auto simp: SignerPublicKeyBlobref_def split: if_splits sum.splits)

lemma Signer_writes:
  assumes "SignerPublicKeyBlobref X st = Inr (r, st1)"
  shows "writes st1 = writes st \<or> (\<exists>p. writes st1 = writes st @ [p] \<and> fs st p = None)"
  using assms getSigner_writes [of X st]
  by (auto simp: SignerPublicKeyBlobref_def split: if_splits sum.splits)


lemma publishKey_writable:
  assumes "\<not> unwritable st (pubFilePath X d (SHA1FromString X a))"
  shows "\<exists>st1. publishKey X st d a = (Some (SHA1FromString X a), st1)"
  using assms by (auto simp: publishKey_def WriteFile_def Let_def)

lemma signerFromConfig_ready:
  assumes "config st ''keyId'' = Some (JString keyId)"
    and "signerKeyRing X st = Some keyRing"
    and "fs st keyRing = Some (File ring)"
    and "findEntity X keyId ring = Inr entity"
    and "ArmoredPublicKey X entity = Inr armored"
    and "config st ''selfPubKeyDir'' = Some (JString d)"
    and "fs st d = Some Dir"
  shows "signerFromConfig X st = publishKey X st d armored"
  using assms by (simp add: signerFromConfig_def assertString_def EntityFromSecring_def)

text \<open>
  C6: given a loaded configuration with a string \<^verbatim>\<open>keyId\<close>, a key ring that is found
  and holds that key, a public key that serialises, and a \<^verbatim>\<open>selfPubKeyDir\<close> that is
  an existing directory, the resolution of the public-key blob returns the content
  address \<open>br\<close> of the armored key, and a second resolution in the state the first one
  left returns \<open>br\<close> again and leaves that state as it is: it writes nothing and does not
  fail on the file that is there. Over both calls \<^verbatim>\<open>ioutil.WriteFile\<close> is called once
  when the file was absent and never when it was there. The same holds through
  \<^verbatim>\<open>SignerPublicKeyBlobref\<close>, whose \<^verbatim>\<open>sync.Once\<close> has not run. The write is taken
  not to fail, and the path of a published blob (it ends in \<^verbatim>\<open>.camli\<close>) is taken
  not to be the path of the identity secret ring, which the second resolution probes.
\<close>

theorem signer_resolution_idempotent:
  assumes noalias: "\<And>d n. Join X d (n @ ''.camli'') \<noteq> IdentitySecretRing X"
    and loaded: "configOnce_Do X st = Inr st0"
    and keyId: "config st0 ''keyId'' = Some (JString keyId)"
    and keyRing: "signerKeyRing X st0 = Some keyRing"
    and ring: "fs st0 keyRing = Some (File ring)"
    and entity: "findEntity X keyId ring = Inr entity"
    and armored: "ArmoredPublicKey X entity = Inr armored"
    and selfPubKeyDir: "config st0 ''selfPubKeyDir'' = Some (JString d)"
    and dir: "fs st0 d = Some Dir"
    and writable: "\<not> unwritable st0 (pubFilePath X d (SHA1FromString X armored))"
    and br: "br = SHA1FromString X armored"
    and p: "p = pubFilePath X d br"
  shows "(\<exists>st1. getSignerPublicKeyBlobref X st = Inr (Some br, st1)
            \<and> getSignerPublicKeyBlobref X st1 = Inr (Some br, st1)
            \<and> fs st1 p \<noteq> None
            \<and> (if fs st p = None then writes st1 = writes st @ [p] else writes st1 = writes st))
       \<and> (signerPublicKeyRefOnce st \<or>
           (\<exists>st2. SignerPublicKeyBlobref X st = Inr (Some br, st2)
              \<and> SignerPublicKeyBlobref X st2 = Inr (Some br, st2)
              \<and> fs st2 p \<noteq> None
              \<and> (if fs st p = None then writes st2 = writes st @ [p] else writes st2 = writes st)))"
proof -
  from publishKey_writable [OF writable] obtain st1
    where pub: "publishKey X st0 d armored = (Some br, st1)"
    unfolding br by blast
  with signerFromConfig_ready [OF keyId keyRing ring entity armored selfPubKeyDir dir]
  have s: "signerFromConfig X st0 = (Some br, st1)" by simp
  with loaded have g: "getSignerPublicKeyBlobref X st = Inr (Some br, st1)"
    by (simp add: getSignerPublicKeyBlobref_def)
  from getSigner_twice [OF noalias g]
  have g2: "getSignerPublicKeyBlobref X st1 = Inr (Some br, st1)" .
  from publishKey_Some [OF pub] p
  have there: "fs st1 p \<noteq> None"
    and w0: "st1 = st0 \<or> (fs st0 p = None \<and>
           st1 = st0\<lparr>writes := writes st0 @ [p], fs := (fs st0)(p \<mapsto> File armored)\<rparr>)"
    by blast+
  from configOnce_Do_keeps_disk [OF loaded]
  have same: "fs st0 = fs st" "writes st0 = writes st" by blast+
  from w0 there same
  have w: "if fs st p = None then writes st1 = writes st @ [p] else writes st1 = writes st"
    by auto
  have once: "SignerPublicKeyBlobref X st =
      Inr (Some br, st1\<lparr>signerPublicKeyRef := Some br, signerPublicKeyRefOnce := True\<rparr>)"
    if "\<not> signerPublicKeyRefOnce st"
    using that g by (simp add: SignerPublicKeyBlobref_def)
  from g g2 there w once Signer_once [of X st "Some br"] show ?thesis
    by auto
qed

lemma demo_noalias:
  "Join (demo conf) d (n @ ''.camli'') \<noteq> IdentitySecretRing (demo conf)"
  by (auto simp: demo_def dest: arg_cong [where f = last])

theorem signer_resolution_idempotent_witness:
  "(\<exists>st1. getSignerPublicKeyBlobref (demo identConf) identProc
            = Inr (Some ''sha1-ADBA5F62 YEK CILBUP'', st1)
      \<and> getSignerPublicKeyBlobref (demo identConf) st1
            = Inr (Some ''sha1-ADBA5F62 YEK CILBUP'', st1)
      \<and> fs st1 ''/keys/sha1-ADBA5F62 YEK CILBUP.camli'' \<noteq> None
      \<and> writes st1 = [''/keys/sha1-ADBA5F62 YEK CILBUP.camli''])
   \<and> (\<exists>st2. SignerPublicKeyBlobref (demo identConf) identProc
            = Inr (Some ''sha1-ADBA5F62 YEK CILBUP'', st2)
      \<and> SignerPublicKeyBlobref (demo identConf) st2
            = Inr (Some ''sha1-ADBA5F62 YEK CILBUP'', st2)
      \<and> fs st2 ''/keys/sha1-ADBA5F62 YEK CILBUP.camli'' \<noteq> None
      \<and> writes st2 = [''/keys/sha1-ADBA5F62 YEK CILBUP.camli''])"
proof -
  let ?X = "demo identConf"
  let ?st0 = "identProc\<lparr>config := identConf, configOnce := True\<rparr>"
  have l: "configOnce_Do ?X identProc = Inr ?st0"
    by (simp add: configOnce_Do_def parseConfig_def ConfigFilePath_def demo_def fresh_def
        identProc_def)
  have k: "config ?st0 ''keyId'' = Some (JString ''26F5ABDA'')"
    by (simp add: identConf_def)
  have r: "signerKeyRing ?X ?st0 = Some ''/ring''"
    by (simp add: signerKeyRing_def assertString_def identConf_def)
  have f: "fs ?st0 ''/ring'' = Some (File ''26F5ABDA'')"
    by (simp add: identProc_def)
  have e: "findEntity ?X ''26F5ABDA'' ''26F5ABDA'' = Inr ''26F5ABDA''"
    by (simp add: demo_def)
  have a: "ArmoredPublicKey ?X ''26F5ABDA'' = Inr ''PUBLIC KEY 26F5ABDA''"
    by (simp add: demo_def)
  have c: "config ?st0 ''selfPubKeyDir'' = Some (JString ''/keys'')"
    by (simp add: identConf_def)
  have d: "fs ?st0 ''/keys'' = Some Dir"
    by (simp add: identProc_def)
  have w: "\<not> unwritable ?st0
      (pubFilePath ?X ''/keys'' (SHA1FromString ?X ''PUBLIC KEY 26F5ABDA''))"
    by (simp add: identProc_def fresh_def)
  have b: "''sha1-ADBA5F62 YEK CILBUP'' = SHA1FromString ?X ''PUBLIC KEY 26F5ABDA''"
    by (simp add: demo_def)
  have p: "''/keys/sha1-ADBA5F62 YEK CILBUP.camli''
      = pubFilePath ?X ''/keys'' ''sha1-ADBA5F62 YEK CILBUP''"
    by (simp add: pubFilePath_def demo_def)
  have n: "fs identProc ''/keys/sha1-ADBA5F62 YEK CILBUP.camli'' = None"
    "writes identProc = []" "\<not> signerPublicKeyRefOnce identProc"
    by (simp_all add: identProc_def fresh_def)
  from signer_resolution_idempotent [OF demo_noalias l k r f e a c d w b p] n show ?thesis
    by simp
qed

section \<open>Properties of trust resolution\<close>

lemma appendTrustedCerts_strings:
  "appendTrustedCerts (map JString xs @ vs) c st
     = appendTrustedCerts vs (c\<lparr>trustedCerts := trustedCerts c @ map ToLower xs\<rparr>) st"
  by (induction xs arbitrary: c) (simp_all add: assertString_def)

lemma appendTrustedCerts_stops:
  "\<not> isJString v \<Longrightarrow>
   appendTrustedCerts (v # vs) c st = (c, logPrintf (TrustedCertNotString v) st)"
  by (cases v) (simp_all add: assertString_def isJString_def)

lemma appendTrustedCerts_truncates:
  assumes "\<not> isJString v"
  shows "appendTrustedCerts (map JString pre @ v # rest) c st
     = (c\<lparr>trustedCerts := trustedCerts c @ map ToLower pre\<rparr>,
        logPrintf (TrustedCertNotString v) st)"
  by (simp only: appendTrustedCerts_strings appendTrustedCerts_stops [OF assms])

lemma Getenv_fresh: "Getenv fresh k = []"
  by (simp add: Getenv_def fresh_def)

text \<open>
  C8, amended: when \<^verbatim>\<open>CAMLI_TRUSTED_CERT\<close> is not set and the \<^verbatim>\<open>trustedCerts\<close> list
  of the loaded configuration is a run of strings followed by an element that is not a
  string, trust resolution logs the type-mismatch diagnostic for that element and stops
  there: what follows the element is dropped, and the trust set is the lowercased strings
  that came before it.
\<close>

theorem trusted_certs_truncated_at_non_string:
  assumes "Getenv st ''CAMLI_TRUSTED_CERT'' = []"
    and "configOnce_Do X st = Inr st1"
    and "config st1 ''trustedCerts'' = Some (JArray (map JString pre @ v # rest))"
    and "\<not> isJString v"
  shows "initTrustedCerts X c st
     = Inr (c\<lparr>trustedCerts := map ToLower pre\<rparr>, logPrintf (TrustedCertNotString v) st1)"
  using assms(1-3)
  by (simp add: initTrustedCerts_def assertArray_def appendTrustedCerts_truncates [OF assms(4)]
      del: appendTrustedCerts.simps)

lemma ToLower_ABC123: "ToLower ''ABC123'' = ''abc123''"
  by code_simp

text \<open>
  C8, as the spec has it: at a non-string element the trust set is abandoned rather than
  left partially populated. It fails: of the list \<^verbatim>\<open>["ABC123", 5, "DEF456"]\<close> the
  trust set keeps the first entry.
\<close>

theorem trusted_certs_partially_populated:
  "map_sum id (\<lambda>(c, st). trustedCerts c) (initTrustedCerts (demo certsConf) newClient fresh)
     = Inr [''abc123'']"
  by (simp add: initTrustedCerts_def Getenv_fresh fresh_load assertArray_def certsConf_def
      assertString_def ToLower_ABC123 newClient_def)

theorem trusted_certs_truncated_at_non_string_witness:
  "initTrustedCerts (demo certsConf) newClient fresh
     = Inr (newClient\<lparr>trustedCerts := map ToLower [''ABC123'']\<rparr>,
            logPrintf (TrustedCertNotString (JNumber 5))
              (fresh\<lparr>config := certsConf, configOnce := True\<rparr>))"
proof -
  have e: "Getenv fresh ''CAMLI_TRUSTED_CERT'' = []"
    by (rule Getenv_fresh)
  have g: "config (fresh\<lparr>config := certsConf, configOnce := True\<rparr>) ''trustedCerts''
      = Some (JArray (map JString [''ABC123''] @ JNumber 5 # [JString ''DEF456'']))"
    by (simp add: certsConf_def)
  have n: "\<not> isJString (JNumber 5)"
    by (simp add: isJString_def)
  from trusted_certs_truncated_at_non_string [OF e fresh_load g n] show ?thesis .
qed

lemma initTrustedCerts_env:
  "Getenv st ''CAMLI_TRUSTED_CERT'' = e \<Longrightarrow> e \<noteq> [] \<Longrightarrow>
   initTrustedCerts X c st = Inr (c\<lparr>trustedCerts := [e]\<rparr>, st)"
  by (simp add: initTrustedCerts_def)

lemma GetTrustedCerts_first:
  "\<not> initTrustedCertsOnce st \<Longrightarrow> initTrustedCerts X c st = Inr (c1, st1) \<Longrightarrow>
   GetTrustedCerts X c st = Inr (trustedCerts c1, c1, st1\<lparr>initTrustedCertsOnce := True\<rparr>)"
  by (simp add: GetTrustedCerts_def)

lemma GetTrustedCerts_later:
  "initTrustedCertsOnce st \<Longrightarrow> GetTrustedCerts X c st = Inr (trustedCerts c, c, st)"
  by (simp add: GetTrustedCerts_def)

lemma envProc_fields:
  "Getenv (envProc e) ''CAMLI_TRUSTED_CERT'' = e" "\<not> initTrustedCertsOnce (envProc e)"
  by (simp_all add: Getenv_def envProc_def fresh_def)

text \<open>
  C7 says that every fingerprint of the trust set is lowercased, whichever source it came
  from. The branch for \<^verbatim>\<open>CAMLI_TRUSTED_CERT\<close> stores the value of the variable as it
  is, where the loop over the configuration applies \<^verbatim>\<open>strings.ToLower\<close>.
\<close>

theorem trusted_cert_from_env_not_lowercased:
  "map_sum id fst (GetTrustedCerts (demo Map.empty) newClient (envProc ''ABC123''))
     = Inr [''ABC123'']
   \<and> ToLower ''ABC123'' \<noteq> ''ABC123''"
  using GetTrustedCerts_first [OF envProc_fields(2) initTrustedCerts_env [OF envProc_fields(1)],
      of "''ABC123''" "demo Map.empty" newClient]
  by (simp add: ToLower_ABC123)

text \<open>
  C9 says that each client computes its trust set on its first call of
  \<^verbatim>\<open>GetTrustedCerts\<close>. \<open>initTrustedCertsOnce\<close> belongs to the package: after the
  call on a first client, the first call on a second client computes nothing and returns
  the empty field of that client.
\<close>

theorem second_client_gets_no_trusted_certs:
  "(case GetTrustedCerts (demo Map.empty) newClient (envProc ''abc123'') of
      Inl a \<Rightarrow> ([], Inl a)
    | Inr (r1, c1, st1) \<Rightarrow> (r1, map_sum id fst (GetTrustedCerts (demo Map.empty) newClient st1)))
   = ([''abc123''], Inr [])"
  using GetTrustedCerts_first [OF envProc_fields(2) initTrustedCerts_env [OF envProc_fields(1)],
      of "''abc123''" "demo Map.empty" newClient]
  by (simp add: GetTrustedCerts_later) (simp add: newClient_def)

end
